theory Spec2Isabelle
  imports Complex_Main "HOL-Library.Multiset"
begin

section \<open>Numbers and errors\<close>

text \<open>
  The program computes on numpy arrays of float64. A float is modelled by the exact real
  it stands for: rounding and overflow are not part of the model. Underflow is modelled
  where it decides the sign of a price: \<open>np.exp\<close> returns 0.0 for an argument whose
  exponential lies below half of the smallest positive float (see \<open>np_exp\<close>). A float that
  is not a finite number (nan, inf, -inf) is the single value \<open>NonFin\<close>; the operations
  below yield it exactly where numpy leaves the finite numbers (a division by zero, the
  logarithm of a non-positive number, the mean of an empty array), and every operation
  used here on a non-finite operand stays non-finite. numpy reports these cases with a
  RuntimeWarning, not with an exception.
\<close>

datatype npfloat = Fin real | NonFin

text \<open>The exceptions numpy can raise in the modelled code.\<close>

datatype error = ValueError | IndexError

fun np_divide :: "real \<Rightarrow> real \<Rightarrow> npfloat" where
  "np_divide x y = (if y = 0 then NonFin else Fin (x / y))"

fun np_log :: "npfloat \<Rightarrow> npfloat" where
  "np_log (Fin x) = (if 0 < x then Fin (ln x) else NonFin)"
| "np_log NonFin = NonFin"

fun np_sqrt :: "npfloat \<Rightarrow> npfloat" where
  "np_sqrt (Fin x) = (if 0 \<le> x then Fin (sqrt x) else NonFin)"
| "np_sqrt NonFin = NonFin"

fun np_add :: "npfloat \<Rightarrow> npfloat \<Rightarrow> npfloat" where
  "np_add (Fin x) (Fin y) = Fin (x + y)"
| "np_add _ _ = NonFin"

fun np_subtract :: "npfloat \<Rightarrow> npfloat \<Rightarrow> npfloat" where
  "np_subtract (Fin x) (Fin y) = Fin (x - y)"
| "np_subtract _ _ = NonFin"

fun np_multiply :: "npfloat \<Rightarrow> npfloat \<Rightarrow> npfloat" where
  "np_multiply (Fin x) (Fin y) = Fin (x * y)"
| "np_multiply _ _ = NonFin"

text \<open>\<open>np.sum\<close> of a one-dimensional array; the sum of the empty array is 0.\<close>

definition np_sum :: "npfloat list \<Rightarrow> npfloat" where
  "np_sum xs = foldl np_add (Fin 0) xs"

text \<open>A sum divided by an element count, as \<open>np.mean\<close> and \<open>np.std\<close> do it.\<close>

fun div_count :: "npfloat \<Rightarrow> nat \<Rightarrow> npfloat" where
  "div_count (Fin s) n = np_divide s (real n)"
| "div_count NonFin n = NonFin"

definition np_mean :: "npfloat list \<Rightarrow> npfloat" where
  "np_mean xs = div_count (np_sum xs) (length xs)"

text \<open>
  \<open>np.std\<close> with its default \<open>ddof = 0\<close>: the mean is subtracted, the deviations are
  squared and summed, the sum is divided by the number of elements, and the square root
  is taken.
\<close>

definition np_std :: "npfloat list \<Rightarrow> npfloat" where
  "np_std xs =
     (let arrmean = np_mean xs;
          x = map (\<lambda>v. np_subtract v arrmean) xs;
          x = map (\<lambda>v. np_multiply v v) x;
          ret = div_count (np_sum x) (length xs)
      in np_sqrt ret)"

section \<open>Parameter estimation\<close>

text \<open>
  \<^verbatim>\<open>
  def estimate_gbm_parameters(prices):
      log_returns = np.log(prices[1:] / prices[:-1])
      sigma = np.std(log_returns) * np.sqrt(252)
      mu = np.mean(log_returns) * 252 + 0.5 * sigma**2
      return mu, sigma
  \<close>
  \<open>prices\<close> is a one-dimensional array of finite floats. The slices \<open>prices[1:]\<close> and
  \<open>prices[:-1]\<close> have the same length, so the element-wise division cannot fail on the
  shapes. The function has no \<open>raise\<close>, and no numpy call in it raises on a float array:
  the result is always \<open>Inr\<close>.
\<close>

definition estimate_gbm_parameters :: "real list \<Rightarrow> error + (npfloat \<times> npfloat)" where
  "estimate_gbm_parameters prices =
     (let log_returns = map np_log (map2 np_divide (drop 1 prices) (butlast prices));
          sigma = np_multiply (np_std log_returns) (np_sqrt (Fin 252));
          mu = np_add (np_multiply (np_mean log_returns) (Fin 252))
                      (np_multiply (Fin 0.5) (np_multiply sigma sigma))
      in Inr (mu, sigma))"

subsection \<open>The estimator as the specification words it\<close>

text \<open>
  The logarithmic return \<open>r[i] = ln(prices[i] / prices[i-1])\<close> for \<open>i = 1..n-1\<close>, the mean
  of the returns, their population standard deviation (the squared deviations are divided
  by the number of returns, not by one less), and the annualised values.
\<close>

definition log_return :: "real list \<Rightarrow> nat \<Rightarrow> real" where
  "log_return prices i = ln (prices ! i / prices ! (i - 1))"

definition mean_return :: "real list \<Rightarrow> real" where
  "mean_return prices =
     (\<Sum>i = 1..<length prices. log_return prices i) / real (length prices - 1)"

definition population_std :: "real list \<Rightarrow> real" where
  "population_std prices =
     sqrt ((\<Sum>i = 1..<length prices. (log_return prices i - mean_return prices)\<^sup>2)
           / real (length prices - 1))"

definition spec_sigma :: "real list \<Rightarrow> real" where
  "spec_sigma prices = population_std prices * sqrt 252"

definition spec_mu :: "real list \<Rightarrow> real" where
  "spec_mu prices = mean_return prices * 252 + 0.5 * (spec_sigma prices)\<^sup>2"

section \<open>Path simulation\<close>

text \<open>
  The smallest positive float64 is \<open>2 ^ -1074\<close>, the largest finite one
  \<open>(2 - 2 ^ -52) * 2 ^ 1023\<close>. \<open>np.exp\<close> rounds to the nearest float: an exponential below
  half of the smallest positive float (an argument below \<open>-1075 * ln 2\<close>, about
  \<open>-745.13\<close>) becomes 0.0; any other result is taken as the exact exponential. A product
  is taken as exact; the statements about the sign of a price say where they rely on the
  exact product lying between the smallest and the largest positive float.
\<close>

definition min_float :: real where
  "min_float = 1 / 2 ^ 1074"

definition max_float :: real where
  "max_float = (2 - 1 / 2 ^ 52) * 2 ^ 1023"

definition np_exp :: "real \<Rightarrow> real" where
  "np_exp x = (if exp x < min_float / 2 then 0 else exp x)"

text \<open>
  \<open>np.random.normal(loc, scale, (rows, cols))\<close> draws \<open>rows * cols\<close> standard normal
  variates from the generator, fills the array with \<open>loc + scale * z\<close> row by row, and
  raises ValueError for a negative scale or a negative dimension. The variates the
  generator yields from its current state are the stream \<open>z\<close>.
\<close>

definition np_random_normal ::
    "(nat \<Rightarrow> real) \<Rightarrow> real \<Rightarrow> real \<Rightarrow> int \<Rightarrow> int \<Rightarrow> error + real list list" where
  "np_random_normal z loc scale rows cols =
     (if scale < 0 \<or> rows < 0 \<or> cols < 0 then Inl ValueError
      else Inr (map (\<lambda>i. map (\<lambda>j. loc + scale * z (i * nat cols + j)) [0..<nat cols])
                    [0..<nat rows]))"

text \<open>\<open>np.cumsum(dW, axis=0)\<close>: each row is the element-wise sum of the rows up to it.\<close>

fun cumsum_from :: "real list \<Rightarrow> real list list \<Rightarrow> real list list" where
  "cumsum_from acc [] = []"
| "cumsum_from acc (r # rs) = (let a = map2 (+) acc r in a # cumsum_from a rs)"

definition np_cumsum0 :: "real list list \<Rightarrow> real list list" where
  "np_cumsum0 rows = (case rows of [] \<Rightarrow> [] | r # rs \<Rightarrow> r # cumsum_from r rs)"

text \<open>\<open>np.arange(n)\<close> is \<open>0, 1, ..., n - 1\<close>, and empty when \<open>n \<le> 0\<close>.\<close>

definition np_arange :: "int \<Rightarrow> int list" where
  "np_arange n = map int [0..<nat n]"

text \<open>
  \<^verbatim>\<open>
  def simulate_gbm_daily(S0, mu, sigma, n_days, n_sim=1000):
      dt = 1/252
      dW = np.random.normal(0, np.sqrt(dt), (n_days, n_sim))
      W = np.cumsum(dW, axis=0)
      t = np.arange(n_days)
      S = S0 * np.exp((mu - 0.5*sigma**2)*t[:, None]/252 + sigma*W)
      return S, t
  \<close>
  The grid \<open>S\<close> is the list of its rows, one row per day and one column per path; its
  shape is \<open>(n_days, n_sim)\<close>. The global generator of \<open>np.random\<close> is an explicit argument:
  \<open>z\<close> is the stream of standard normal variates it yields during the call. \<open>mu\<close> and
  \<open>sigma\<close> are numpy float64 scalars, as \<open>predict_stock_daily\<close> passes them on from the
  estimator: \<open>sigma**2\<close> on a float64 does not raise.
\<close>

definition simulate_gbm_daily ::
    "(nat \<Rightarrow> real) \<Rightarrow> real \<Rightarrow> real \<Rightarrow> real \<Rightarrow> int \<Rightarrow> int \<Rightarrow> error + (real list list \<times> int list)" where
  "simulate_gbm_daily z S0 mu sigma n_days n_sim =
     (let dt = 1 / 252 in
      case np_random_normal z 0 (sqrt dt) n_days n_sim of
        Inl e \<Rightarrow> Inl e
      | Inr dW \<Rightarrow>
          let W = np_cumsum0 dW;
              t = np_arange n_days;
              S = map2 (\<lambda>ti row.
                     map (\<lambda>w. S0 * np_exp ((mu - 0.5 * sigma\<^sup>2) * real_of_int ti / 252 + sigma * w)) row)
                   t W
          in Inr (S, t))"

section \<open>Reduction to the forecast band\<close>

text \<open>Python indexing and slicing of a list: a negative index counts from the end.\<close>

definition py_nth :: "'a list \<Rightarrow> int \<Rightarrow> 'a" where
  "py_nth xs i = (if i < 0 then xs ! nat (int (length xs) + i) else xs ! nat i)"

definition py_slice :: "'a list \<Rightarrow> int \<Rightarrow> int \<Rightarrow> 'a list" where
  "py_slice xs i j =
     (let n = int (length xs);
          lo = (if i < 0 then max 0 (i + n) else min i n);
          hi = (if j < 0 then max 0 (j + n) else min j n)
      in take (nat hi - nat lo) (drop (nat lo) xs))"

text \<open>
  \<open>np.median\<close> of a one-dimensional array: the array is partitioned around its middle
  positions (here: sorted), and the mean of the middle element, or of the two middle
  elements when the size is even, is returned. The median of an empty array is nan.
\<close>

definition np_median :: "real list \<Rightarrow> npfloat" where
  "np_median a =
     (let sz = length a;
          part = sort a;
          index = int (sz div 2)
      in if sz mod 2 = 1 then np_mean (map Fin (py_slice part index (index + 1)))
         else np_mean (map Fin (py_slice part (index - 1) (index + 1))))"

text \<open>
  \<open>np.percentile(a, q)\<close> of a one-dimensional array with the default method, linear
  interpolation between order statistics. A percentile outside \<open>[0, 100]\<close> raises
  ValueError. The virtual index \<open>(n - 1) * q / 100\<close> lies between two neighbouring
  positions of the sorted array; an index at or beyond the last position is replaced by
  \<open>-1\<close>, one below zero by \<open>0\<close>. An empty array has no last element to read: that
  case is modelled as IndexError, and no property below depends on it.
\<close>

definition lerp :: "real \<Rightarrow> real \<Rightarrow> real \<Rightarrow> real" where
  "lerp a b t = (let diff_b_a = b - a in if t \<ge> 0.5 then b - diff_b_a * (1 - t) else a + diff_b_a * t)"

definition np_percentile :: "real list \<Rightarrow> real \<Rightarrow> error + real" where
  "np_percentile a q =
     (if \<not> (0 \<le> q \<and> q \<le> 100) then Inl ValueError
      else if a = [] then Inl IndexError
      else
        let arr = sort a;
            n = int (length a);
            virtual_index = (real_of_int n - 1) * (q / 100);
            previous_index = (if virtual_index < 0 then 0
                              else if virtual_index \<ge> real_of_int n - 1 then - 1
                              else \<lfloor>virtual_index\<rfloor>);
            next_index = (if virtual_index < 0 then 0
                          else if virtual_index \<ge> real_of_int n - 1 then - 1
                          else \<lfloor>virtual_index\<rfloor> + 1);
            gamma = virtual_index - real_of_int previous_index
        in Inr (lerp (py_nth arr previous_index) (py_nth arr next_index) gamma))"

text \<open>The percentile of every row of a list of rows; the first failing row fails.\<close>

fun percentile_rows :: "real list list \<Rightarrow> real \<Rightarrow> error + real list" where
  "percentile_rows [] q = Inr []"
| "percentile_rows (row # rows) q =
     (case np_percentile row q of
        Inl e \<Rightarrow> Inl e
      | Inr v \<Rightarrow> (case percentile_rows rows q of Inl e \<Rightarrow> Inl e | Inr vs \<Rightarrow> Inr (v # vs)))"

text \<open>
  \<open>np.percentile(a, q, axis=1)\<close> of a two-dimensional array with \<open>cols\<close> columns. The
  percentile is checked first (ValueError outside \<open>[0, 100]\<close>); an array without columns
  then raises IndexError, whatever its number of rows; otherwise every row is reduced.
  The column count is an argument because the list of rows of an array without rows does
  not show it.
\<close>

definition np_percentile_axis1 :: "nat \<Rightarrow> real list list \<Rightarrow> real \<Rightarrow> error + real list" where
  "np_percentile_axis1 cols a q =
     (if \<not> (0 \<le> q \<and> q \<le> 100) then Inl ValueError
      else if cols = 0 then Inl IndexError
      else percentile_rows a q)"

text \<open>
  The simulation and reduction steps of \<open>predict_stock_daily\<close>, for given \<open>S0\<close>, \<open>mu\<close> and
  \<open>sigma\<close>:
  \<^verbatim>\<open>
      S, t = simulate_gbm_daily(S0, mu, sigma, n_days, n_sim=n_sim)
      median = np.median(S, axis=1)
      lower = np.percentile(S, 2.5, axis=1)
      upper = np.percentile(S, 97.5, axis=1)
  \<close>
  \<open>S\<close> has \<open>n_sim\<close> columns. \<open>np.median\<close> does not raise: on rows without elements it yields
  nan, and the call of \<open>np.percentile\<close> that follows raises.
\<close>

record forecast_band =
  median :: "npfloat list"
  lower :: "real list"
  upper :: "real list"

definition predict_stock_daily_band ::
    "(nat \<Rightarrow> real) \<Rightarrow> real \<Rightarrow> real \<Rightarrow> real \<Rightarrow> int \<Rightarrow> int \<Rightarrow> error + forecast_band" where
  "predict_stock_daily_band z S0 mu sigma n_days n_sim =
     (case simulate_gbm_daily z S0 mu sigma n_days n_sim of
        Inl e \<Rightarrow> Inl e
      | Inr (S, t) \<Rightarrow>
          let med = map np_median S in
          (case np_percentile_axis1 (nat n_sim) S 2.5 of
             Inl e \<Rightarrow> Inl e
           | Inr lo \<Rightarrow>
               (case np_percentile_axis1 (nat n_sim) S 97.5 of
                  Inl e \<Rightarrow> Inl e
                | Inr up \<Rightarrow> Inr \<lparr>median = med, lower = lo, upper = up\<rparr>)))"

subsection \<open>What the grid holds\<close>

text \<open>
  The increment of path \<open>j\<close> on row \<open>k\<close>, the Brownian value on row \<open>i\<close> (the sum of the
  increments of rows \<open>0..i\<close>), the argument of \<open>np.exp\<close> in row \<open>i\<close>, column \<open>j\<close>, and the
  price the code stores there.
\<close>

definition increment :: "(nat \<Rightarrow> real) \<Rightarrow> nat \<Rightarrow> nat \<Rightarrow> nat \<Rightarrow> real" where
  "increment z n_sim k j = 0 + sqrt (1 / 252) * z (k * n_sim + j)"

definition brownian :: "(nat \<Rightarrow> real) \<Rightarrow> nat \<Rightarrow> nat \<Rightarrow> nat \<Rightarrow> real" where
  "brownian z n_sim i j = (\<Sum>k\<le>i. increment z n_sim k j)"

definition exponent :: "(nat \<Rightarrow> real) \<Rightarrow> real \<Rightarrow> real \<Rightarrow> nat \<Rightarrow> nat \<Rightarrow> nat \<Rightarrow> real" where
  "exponent z mu sigma n_sim i j =
     (mu - 0.5 * sigma\<^sup>2) * real i / 252 + sigma * brownian z n_sim i j"

definition grid_price :: "(nat \<Rightarrow> real) \<Rightarrow> real \<Rightarrow> real \<Rightarrow> real \<Rightarrow> nat \<Rightarrow> nat \<Rightarrow> nat \<Rightarrow> real" where
  "grid_price z S0 mu sigma n_sim i j = S0 * np_exp (exponent z mu sigma n_sim i j)"

definition grid_row :: "(nat \<Rightarrow> real) \<Rightarrow> real \<Rightarrow> real \<Rightarrow> real \<Rightarrow> nat \<Rightarrow> nat \<Rightarrow> real list" where
  "grid_row z S0 mu sigma n_sim i = map (grid_price z S0 mu sigma n_sim i) [0..<n_sim]"

subsection \<open>Reading a sorted array at a real position\<close>

text \<open>
  The value of the sorted array \<open>s\<close> at the real position \<open>v\<close>, interpolated linearly
  between the two neighbouring elements. The percentile and the median of the code are
  both of this form.
\<close>

definition order_interp :: "real list \<Rightarrow> real \<Rightarrow> real" where
  "order_interp s v =
     s ! nat \<lfloor>v\<rfloor> + (s ! min (nat \<lfloor>v\<rfloor> + 1) (length s - 1) - s ! nat \<lfloor>v\<rfloor>) * (v - real_of_int \<lfloor>v\<rfloor>)"

section \<open>Properties of the numpy operations\<close>

lemma foldl_np_add_Fin: "foldl np_add (Fin a) (map Fin xs) = Fin (a + sum_list xs)"
  by (induction xs arbitrary: a) (simp_all add: add.assoc)

lemma np_sum_Fin: "np_sum (map Fin xs) = Fin (sum_list xs)"
  by (simp add: np_sum_def foldl_np_add_Fin)

lemma np_mean_Fin: "xs \<noteq> [] \<Longrightarrow> np_mean (map Fin xs) = Fin (sum_list xs / real (length xs))"
  by (simp add: np_mean_def np_sum_Fin)

lemma foldl_np_add_NonFin: "foldl np_add NonFin xs = NonFin"
  by (induction xs) simp_all

lemma foldl_np_add_mem_NonFin: "NonFin \<in> set xs \<Longrightarrow> foldl np_add a xs = NonFin"
proof (induction xs arbitrary: a)
  case Nil
  then show ?case by simp
next
  case (Cons x xs)
  show ?case
  proof (cases "x = NonFin")
    case True
    then show ?thesis by (cases a) (simp_all add: foldl_np_add_NonFin)
  next
    case False
    with Cons show ?thesis by simp
  qed
qed

lemma np_sum_NonFin: "NonFin \<in> set xs \<Longrightarrow> np_sum xs = NonFin"
  by (simp add: np_sum_def foldl_np_add_mem_NonFin)

lemma np_mean_Nil: "np_mean [] = NonFin"
  by (simp add: np_mean_def np_sum_def)

lemma np_std_Nil: "np_std [] = NonFin"
  by (simp add: np_std_def np_mean_def np_sum_def)

lemma np_mean_NonFin: "NonFin \<in> set xs \<Longrightarrow> np_mean xs = NonFin"
  by (simp add: np_mean_def np_sum_NonFin)

lemma np_std_NonFin:
  assumes "NonFin \<in> set xs"
  shows "np_std xs = NonFin"
proof -
  have "NonFin \<in> set (map (\<lambda>v. np_multiply v v) (map (\<lambda>v. np_subtract v NonFin) xs))"
    using assms by (force simp: image_iff)
  then show ?thesis
    unfolding np_std_def Let_def np_mean_NonFin[OF assms] by (simp add: np_sum_NonFin)
qed

lemma log_returns_nth:
  assumes "Suc i < length prices"
  shows "map np_log (map2 np_divide (drop 1 prices) (butlast prices)) ! i
       = np_log (np_divide (prices ! Suc i) (prices ! i))"
  using assms by (simp add: nth_butlast)

lemma log_returns_bad:
  assumes "Suc i < length prices" and "prices ! i = 0 \<or> prices ! Suc i / prices ! i \<le> 0"
  shows "NonFin \<in> set (map np_log (map2 np_divide (drop 1 prices) (butlast prices)))"
proof -
  let ?lr = "map np_log (map2 np_divide (drop 1 prices) (butlast prices))"
  have "i < length ?lr" using assms(1) by simp
  moreover have "?lr ! i = NonFin"
    unfolding log_returns_nth[OF assms(1)] using assms(2) by auto
  ultimately show ?thesis by (metis nth_mem)
qed

lemma log_returns_good:
  assumes "\<And>i. Suc i < length prices \<Longrightarrow> 0 < prices ! Suc i / prices ! i"
  shows "map np_log (map2 np_divide (drop 1 prices) (butlast prices))
       = map Fin (map (log_return prices) [1..<length prices])"
proof (rule nth_equalityI)
  show "length (map np_log (map2 np_divide (drop 1 prices) (butlast prices)))
      = length (map Fin (map (log_return prices) [1..<length prices]))"
    by simp
next
  fix i
  assume "i < length (map np_log (map2 np_divide (drop 1 prices) (butlast prices)))"
  then have i: "Suc i < length prices" by simp
  from assms[OF i] have pos: "0 < prices ! Suc i / prices ! i" .
  then have nz: "prices ! i \<noteq> 0" by auto
  show "map np_log (map2 np_divide (drop 1 prices) (butlast prices)) ! i
      = map Fin (map (log_return prices) [1..<length prices]) ! i"
    unfolding log_returns_nth[OF i] using i pos nz by (simp add: log_return_def)
qed

lemma sum_list_upt: "sum_list (map f [m..<n]) = (\<Sum>i = m..<n. f i)"
  by (simp add: sum_list_distinct_conv_sum_set)

lemma np_std_Fin:
  assumes "xs \<noteq> []"
  shows "np_std (map Fin xs) =
    Fin (sqrt (sum_list (map (\<lambda>v. (v - sum_list xs / real (length xs))\<^sup>2) xs) / real (length xs)))"
proof -
  let ?m = "sum_list xs / real (length xs)"
  have sq: "map (\<lambda>v. np_multiply v v) (map (\<lambda>v. np_subtract v (Fin ?m)) (map Fin xs))
      = map Fin (map (\<lambda>v. (v - ?m)\<^sup>2) xs)"
    by (simp add: power2_eq_square)
  have nonneg: "0 \<le> sum_list (map (\<lambda>v. (v - ?m)\<^sup>2) xs) / real (length xs)"
    by (intro divide_nonneg_nonneg sum_list_nonneg) auto
  show ?thesis
    unfolding np_std_def Let_def np_mean_Fin[OF assms] sq np_sum_Fin
    using assms nonneg by simp
qed

section \<open>The estimator\<close>

lemma estimator_finite:
  assumes "2 \<le> length prices"
    and "\<And>i. Suc i < length prices \<Longrightarrow> 0 < prices ! Suc i / prices ! i"
  shows "estimate_gbm_parameters prices = Inr (Fin (spec_mu prices), Fin (spec_sigma prices))"
proof -
  let ?rs = "map (log_return prices) [1..<length prices]"
  have ne: "?rs \<noteq> []" using assms(1) by (cases prices) auto
  have m: "sum_list ?rs / real (length ?rs) = mean_return prices"
    by (simp add: mean_return_def sum_list_upt)
  have mean: "np_mean (map Fin ?rs) = Fin (mean_return prices)"
    unfolding np_mean_Fin[OF ne] m ..
  have "sum_list (map (\<lambda>v. (v - mean_return prices)\<^sup>2) ?rs)
      = (\<Sum>i = 1..<length prices. (log_return prices i - mean_return prices)\<^sup>2)"
    by (simp add: sum_list_upt comp_def)
  then have std: "np_std (map Fin ?rs) = Fin (population_std prices)"
    unfolding np_std_Fin[OF ne] m by (simp add: population_std_def)
  have lr: "map np_log (map2 np_divide (drop 1 prices) (butlast prices)) = map Fin ?rs"
    by (rule log_returns_good) (rule assms(2))
  show ?thesis
    unfolding estimate_gbm_parameters_def Let_def lr mean std
    by (simp add: spec_mu_def spec_sigma_def power2_eq_square)
qed

lemma estimator_nonfinite:
  assumes "length prices < 2 \<or>
     (\<exists>i. Suc i < length prices \<and> (prices ! i = 0 \<or> prices ! Suc i / prices ! i \<le> 0))"
  shows "estimate_gbm_parameters prices = Inr (NonFin, NonFin)"
proof -
  let ?lr = "map np_log (map2 np_divide (drop 1 prices) (butlast prices))"
  have "np_mean ?lr = NonFin \<and> np_std ?lr = NonFin"
    using assms
  proof
    assume "length prices < 2"
    then have "length ?lr = 0" by simp
    then have e: "?lr = []" by (simp only: length_0_conv)
    show ?thesis unfolding e by (simp add: np_mean_Nil np_std_Nil)
  next
    assume "\<exists>i. Suc i < length prices \<and> (prices ! i = 0 \<or> prices ! Suc i / prices ! i \<le> 0)"
    then have "NonFin \<in> set ?lr" using log_returns_bad by blast
    then show ?thesis using np_mean_NonFin np_std_NonFin by blast
  qed
  then show ?thesis by (simp add: estimate_gbm_parameters_def)
qed

text \<open>
  C2. For a price series of at least two strictly positive prices the estimator returns
  sigma as the population standard deviation of the logarithmic returns (the squared
  deviations divided by the number of returns) times the square root of 252, and mu as
  the mean of the returns times 252 plus half of sigma squared.
\<close>

theorem estimator_formula:
  assumes "2 \<le> length prices" and "\<forall>p\<in>set prices. 0 < p"
  shows "estimate_gbm_parameters prices = Inr (Fin (spec_mu prices), Fin (spec_sigma prices))"
proof (rule estimator_finite[OF assms(1)])
  fix i
  assume "Suc i < length prices"
  then have "0 < prices ! i" "0 < prices ! Suc i"
    using assms(2) by (simp_all add: nth_mem)
  then show "0 < prices ! Suc i / prices ! i" by simp
qed

theorem estimator_formula_witness:
  "estimate_gbm_parameters [1, exp 1, exp 3] = Inr (Fin (819 / 2), Fin (sqrt 252 / 2))"
proof -
  have "estimate_gbm_parameters [1, exp 1, exp 3]
     = Inr (Fin (spec_mu [1, exp 1, exp 3]), Fin (spec_sigma [1, exp 1, exp 3]))"
    by (rule estimator_formula) simp_all
  moreover have "{1..<3::nat} = {1, 2}" by auto
  moreover have "exp 3 / exp 1 = exp (2::real)" by (simp flip: exp_diff)
  ultimately show ?thesis
    by (simp add: spec_mu_def spec_sigma_def population_std_def mean_return_def log_return_def
       power2_eq_square real_sqrt_divide)
qed

text \<open>
  C4, as the code has it. The estimator validates nothing and never raises. For a series of
  fewer than two prices, or one in which some price is zero or the ratio of two
  neighbouring prices is not positive, it returns a pair of non-finite floats; for a
  series of at least two prices that are all negative it returns finite parameters, by the
  formulas it uses for positive prices.
\<close>

theorem estimator_no_validation:
  "\<not> isl (estimate_gbm_parameters prices)
   \<and> (length prices < 2
        \<or> (\<exists>i. Suc i < length prices \<and> (prices ! i = 0 \<or> prices ! Suc i / prices ! i \<le> 0))
      \<longrightarrow> estimate_gbm_parameters prices = Inr (NonFin, NonFin))
   \<and> (2 \<le> length prices \<and> (\<forall>p\<in>set prices. p < 0)
      \<longrightarrow> estimate_gbm_parameters prices = Inr (Fin (spec_mu prices), Fin (spec_sigma prices)))"
proof (intro conjI impI)
  show "\<not> isl (estimate_gbm_parameters prices)"
    by (simp add: estimate_gbm_parameters_def Let_def)
next
  assume "length prices < 2
      \<or> (\<exists>i. Suc i < length prices \<and> (prices ! i = 0 \<or> prices ! Suc i / prices ! i \<le> 0))"
  then show "estimate_gbm_parameters prices = Inr (NonFin, NonFin)"
    by (rule estimator_nonfinite)
next
  assume a: "2 \<le> length prices \<and> (\<forall>p\<in>set prices. p < 0)"
  show "estimate_gbm_parameters prices = Inr (Fin (spec_mu prices), Fin (spec_sigma prices))"
  proof (rule estimator_finite)
    show "2 \<le> length prices" using a by simp
  next
    fix i
    assume "Suc i < length prices"
    then have "prices ! i < 0" "prices ! Suc i < 0"
      using a by (simp_all add: nth_mem)
    then show "0 < prices ! Suc i / prices ! i" by (simp add: zero_less_divide_iff)
  qed
qed

theorem estimator_no_validation_witness:
  "estimate_gbm_parameters [5] = Inr (NonFin, NonFin)
   \<and> estimate_gbm_parameters [1, 0] = Inr (NonFin, NonFin)
   \<and> estimate_gbm_parameters [1, - 1, 2] = Inr (NonFin, NonFin)
   \<and> estimate_gbm_parameters [- 1, - exp 1, - exp 3] = Inr (Fin (819 / 2), Fin (sqrt 252 / 2))"
proof -
  have a: "estimate_gbm_parameters [5] = Inr (NonFin, NonFin)"
    using estimator_no_validation[of "[5]"] by simp
  have "Suc 0 < length [1, 0 :: real] \<and> ([1, 0 :: real] ! 0 = 0 \<or> [1, 0 :: real] ! Suc 0 / [1, 0] ! 0 \<le> 0)"
    by simp
  then have b: "estimate_gbm_parameters [1, 0] = Inr (NonFin, NonFin)"
    using estimator_no_validation[of "[1, 0]"] by blast
  have "Suc 0 < length [1, - 1, 2 :: real]
      \<and> ([1, - 1, 2 :: real] ! 0 = 0 \<or> [1, - 1, 2 :: real] ! Suc 0 / [1, - 1, 2] ! 0 \<le> 0)"
    by simp
  then have c: "estimate_gbm_parameters [1, - 1, 2] = Inr (NonFin, NonFin)"
    using estimator_no_validation[of "[1, - 1, 2]"] by blast
  have "estimate_gbm_parameters [- 1, - exp 1, - exp 3]
     = Inr (Fin (spec_mu [- 1, - exp 1, - exp 3]), Fin (spec_sigma [- 1, - exp 1, - exp 3]))"
    using estimator_no_validation[of "[- 1, - exp 1, - exp 3]"] by simp
  moreover have "{1..<3::nat} = {1, 2}" by auto
  moreover have "exp 3 / exp 1 = exp (2::real)" by (simp flip: exp_diff)
  ultimately have d: "estimate_gbm_parameters [- 1, - exp 1, - exp 3]
      = Inr (Fin (819 / 2), Fin (sqrt 252 / 2))"
    by (simp add: spec_mu_def spec_sigma_def population_std_def mean_return_def log_return_def
       power2_eq_square real_sqrt_divide)
  from a b c d show ?thesis by simp
qed

text \<open>
  The empty series is not rejected: the estimator returns, and what it returns is a pair
  of nan.
\<close>

theorem estimator_empty_counterexample:
  "estimate_gbm_parameters [] = Inr (NonFin, NonFin) \<and> \<not> isl (estimate_gbm_parameters [])"
  by (simp add: estimate_gbm_parameters_def np_mean_def np_std_def np_sum_def)

section \<open>Percentile and median as interpolated order statistics\<close>

lemma lerp_eq: "lerp a b t = a + (b - a) * t"
  by (simp add: lerp_def Let_def algebra_simps)

lemma py_nth_nonneg: "0 \<le> i \<Longrightarrow> py_nth xs i = xs ! nat i"
  by (simp add: py_nth_def)

lemma py_nth_last: "xs \<noteq> [] \<Longrightarrow> py_nth xs (- 1) = xs ! (length xs - 1)"
  by (cases xs) (simp_all add: py_nth_def nat_diff_distrib')

lemma py_slice_inside:
  "i \<le> j \<Longrightarrow> j \<le> length xs \<Longrightarrow> py_slice xs (int i) (int j) = take (j - i) (drop i xs)"
  by (simp add: py_slice_def Let_def)

lemma py_slice_one: "i < length xs \<Longrightarrow> py_slice xs (int i) (int i + 1) = [xs ! i]"
  using py_slice_inside[of i "Suc i" xs]
  by (simp add: take_Suc_conv_app_nth add.commute)

lemma py_slice_two:
  "Suc i < length xs \<Longrightarrow> py_slice xs (int (i + 1) - 1) (int (i + 1) + 1) = [xs ! i, xs ! Suc i]"
proof -
  assume a: "Suc i < length xs"
  then have "drop i xs = xs ! i # xs ! Suc i # drop (Suc (Suc i)) xs"
    by (simp add: Cons_nth_drop_Suc Suc_lessD)
  then have "take (Suc (Suc i) - i) (drop i xs) = [xs ! i, xs ! Suc i]"
    by (simp add: Suc_diff_le)
  then show ?thesis
    using py_slice_inside[of i "Suc (Suc i)" xs] a by (simp add: add.commute)
qed

lemma order_interp_int:
  "order_interp s (real k) = s ! k"
  by (simp add: order_interp_def)

lemma order_interp_half:
  "order_interp s (real k + 1 / 2) = s ! k + (s ! min (k + 1) (length s - 1) - s ! k) * (1 / 2)"
proof -
  have "\<lfloor>real k + 1 / 2\<rfloor> = int k" by linarith
  then show ?thesis by (simp add: order_interp_def)
qed

lemma np_percentile_interp:
  assumes "a \<noteq> []" and "0 \<le> q" and "q \<le> 100"
  shows "np_percentile a q = Inr (order_interp (sort a) ((real (length a) - 1) * (q / 100)))"
proof -
  let ?n = "length a"
  let ?s = "sort a"
  let ?v = "(real ?n - 1) * (q / 100)"
  have n: "1 \<le> ?n" using assms(1) by (cases a) simp_all
  have sne: "?s \<noteq> []" using assms(1) by (metis length_sort length_0_conv)
  have v0: "0 \<le> ?v" using n assms by simp
  have v1: "?v \<le> real ?n - 1"
  proof -
    have "(real ?n - 1) * (q / 100) \<le> (real ?n - 1) * 1"
      by (rule mult_left_mono) (use n assms in simp_all)
    then show ?thesis by simp
  qed
  show ?thesis
  proof (cases "?v \<ge> real ?n - 1")
    case True
    then have veq: "?v = real (?n - 1)" using v1 n by (simp add: of_nat_diff)
    have "np_percentile a q = Inr (lerp (py_nth ?s (- 1)) (py_nth ?s (- 1)) (?v - real_of_int (- 1)))"
      using assms True v0 by (simp add: np_percentile_def Let_def)
    also have "\<dots> = Inr (?s ! (?n - 1))"
      by (simp add: lerp_eq py_nth_last[OF sne])
    also have "\<dots> = Inr (order_interp ?s ?v)"
      unfolding veq by (simp add: order_interp_int)
    finally show ?thesis .
  next
    case False
    then have lt: "?v < real ?n - 1" by simp
    have fl0: "0 \<le> \<lfloor>?v\<rfloor>" using v0 by simp
    have "\<lfloor>?v\<rfloor> < int ?n - 1" using lt by (simp add: floor_less_iff)
    then have fl1: "nat \<lfloor>?v\<rfloor> + 1 \<le> ?n - 1" using fl0 by linarith
    have "np_percentile a q = Inr (lerp (py_nth ?s \<lfloor>?v\<rfloor>) (py_nth ?s (\<lfloor>?v\<rfloor> + 1)) (?v - real_of_int \<lfloor>?v\<rfloor>))"
      using assms False v0 by (simp add: np_percentile_def Let_def)
    also have "\<dots> = Inr (order_interp ?s ?v)"
      using fl0 fl1 by (simp add: lerp_eq py_nth_nonneg order_interp_def nat_add_distrib min_absorb1)
    finally show ?thesis .
  qed
qed

lemma np_median_interp:
  assumes "a \<noteq> []"
  shows "np_median a = Fin (order_interp (sort a) ((real (length a) - 1) / 2))"
proof -
  let ?n = "length a"
  let ?s = "sort a"
  have n: "1 \<le> ?n" using assms by (cases a) simp_all
  have len: "length ?s = ?n" by simp
  show ?thesis
  proof (cases "?n mod 2 = 1")
    case True
    then have "\<exists>k. ?n = 2 * k + 1" by presburger
    then obtain k where k: "?n = 2 * k + 1" ..
    have idx: "?n div 2 = k" using k by simp
    have "py_slice ?s (int k) (int k + 1) = [?s ! k]"
      by (rule py_slice_one) (simp add: k)
    then have "np_median a = Fin (?s ! k)"
      using True by (simp add: np_median_def Let_def idx np_mean_def np_sum_def)
    moreover have "(real ?n - 1) / 2 = real k" using k by simp
    ultimately show ?thesis by (simp only: order_interp_int)
  next
    case False
    with n have "\<exists>k. ?n = 2 * k + 2" by presburger
    then obtain k where k: "?n = 2 * k + 2" ..
    have idx: "?n div 2 = k + 1" using k by simp
    have "py_slice ?s (int (k + 1) - 1) (int (k + 1) + 1) = [?s ! k, ?s ! Suc k]"
      by (rule py_slice_two) (simp add: k)
    then have med: "np_median a = Fin ((?s ! k + ?s ! Suc k) / 2)"
      using False by (simp add: np_median_def Let_def idx np_mean_def np_sum_def)
    have pos: "(real ?n - 1) / 2 = real k + 1 / 2" using k by simp
    have "min (k + 1) (length ?s - 1) = Suc k" using k by simp
    then have "order_interp ?s (real k + 1 / 2) = (?s ! k + ?s ! Suc k) / 2"
      unfolding order_interp_half by (simp add: algebra_simps)
    then show ?thesis unfolding med pos by simp
  qed
qed

lemma order_interp_bounds:
  assumes "sorted s" and "0 \<le> v" and "v \<le> real (length s) - 1"
  shows "s ! nat \<lfloor>v\<rfloor> \<le> order_interp s v"
    and "order_interp s v \<le> s ! min (nat \<lfloor>v\<rfloor> + 1) (length s - 1)"
proof -
  let ?i = "nat \<lfloor>v\<rfloor>"
  let ?j = "min (?i + 1) (length s - 1)"
  let ?g = "v - real_of_int \<lfloor>v\<rfloor>"
  have "\<lfloor>v\<rfloor> \<le> int (length s) - 1" using assms(3) by linarith
  then have i: "?i \<le> length s - 1" "?i < length s" using assms(2) by linarith+
  then have j: "?j < length s" "?i \<le> ?j" by simp_all
  have d: "0 \<le> s ! ?j - s ! ?i" using sorted_nth_mono[OF assms(1) j(2) j(1)] by simp
  have g: "0 \<le> ?g" "?g \<le> 1" by linarith+
  show "s ! ?i \<le> order_interp s v"
    using d g by (simp add: order_interp_def)
  have "(s ! ?j - s ! ?i) * ?g \<le> (s ! ?j - s ! ?i) * 1"
    by (rule mult_left_mono) (use d g in simp_all)
  then show "order_interp s v \<le> s ! ?j"
    by (simp add: order_interp_def)
qed

lemma order_interp_mono:
  assumes "sorted s" and "0 \<le> u" and "u \<le> v" and "v \<le> real (length s) - 1"
  shows "order_interp s u \<le> order_interp s v"
proof (cases "\<lfloor>u\<rfloor> = \<lfloor>v\<rfloor>")
  case True
  let ?i = "nat \<lfloor>v\<rfloor>"
  let ?j = "min (?i + 1) (length s - 1)"
  have "\<lfloor>v\<rfloor> \<le> int (length s) - 1" using assms(4) by linarith
  then have j: "?j < length s" "?i \<le> ?j" using assms(2,3) by linarith+
  have d: "0 \<le> s ! ?j - s ! ?i" using sorted_nth_mono[OF assms(1) j(2) j(1)] by simp
  have "(s ! ?j - s ! ?i) * (u - real_of_int \<lfloor>v\<rfloor>) \<le> (s ! ?j - s ! ?i) * (v - real_of_int \<lfloor>v\<rfloor>)"
    by (rule mult_left_mono) (use d assms(3) in simp_all)
  then show ?thesis by (simp add: order_interp_def True)
next
  case False
  have "\<lfloor>u\<rfloor> \<le> \<lfloor>v\<rfloor>" using assms(3) by (rule floor_mono)
  with False have lt: "\<lfloor>u\<rfloor> < \<lfloor>v\<rfloor>" by simp
  have u0: "0 \<le> \<lfloor>u\<rfloor>" using assms(2) by simp
  have vn: "\<lfloor>v\<rfloor> \<le> int (length s) - 1" using assms(4) by linarith
  have v0: "0 \<le> v" and u1: "u \<le> real (length s) - 1" using assms by linarith+
  have a: "order_interp s u \<le> s ! min (nat \<lfloor>u\<rfloor> + 1) (length s - 1)"
    by (rule order_interp_bounds(2)[OF assms(1,2) u1])
  have b: "s ! nat \<lfloor>v\<rfloor> \<le> order_interp s v"
    by (rule order_interp_bounds(1)[OF assms(1) v0 assms(4)])
  have "min (nat \<lfloor>u\<rfloor> + 1) (length s - 1) \<le> nat \<lfloor>v\<rfloor>" using lt u0 by linarith
  moreover have "nat \<lfloor>v\<rfloor> < length s" using vn lt u0 by linarith
  ultimately have "s ! min (nat \<lfloor>u\<rfloor> + 1) (length s - 1) \<le> s ! nat \<lfloor>v\<rfloor>"
    by (rule sorted_nth_mono[OF assms(1)])
  with a b show ?thesis by linarith
qed

section \<open>The simulated grid\<close>

lemma min_float_pos: "0 < min_float"
  by (simp add: min_float_def)

lemma min_float_le_one: "min_float \<le> 1"
  unfolding min_float_def by (simp add: divide_le_eq_1 one_le_power)

lemma np_exp_nonneg: "0 \<le> np_exp x"
  by (simp add: np_exp_def)

lemma np_exp_exact: "min_float / 2 \<le> exp x \<Longrightarrow> np_exp x = exp x"
  by (simp add: np_exp_def)

lemma np_exp_zero: "exp x < min_float / 2 \<Longrightarrow> np_exp x = 0"
  by (simp add: np_exp_def)

lemma np_exp_pos_iff: "0 < np_exp x \<longleftrightarrow> min_float / 2 \<le> exp x"
  by (simp add: np_exp_def)

lemma exp_ge_min_float: "0 \<le> x \<Longrightarrow> min_float \<le> exp x"
proof -
  assume "0 \<le> x"
  then have "1 \<le> exp x" by simp
  with min_float_le_one show ?thesis by linarith
qed

lemma np_exp_of_nonneg: "0 \<le> x \<Longrightarrow> np_exp x = exp x"
proof -
  assume "0 \<le> x"
  then have "min_float \<le> exp x" by (rule exp_ge_min_float)
  with min_float_pos have "min_float / 2 \<le> exp x" by linarith
  then show ?thesis by (rule np_exp_exact)
qed

lemma exp_below_min_float:
  assumes "x \<le> - 1075"
  shows "exp x < min_float / 2"
proof -
  have "(2::real) < exp 1"
    using exp_lower_Taylor_quadratic[of "1::real"] by simp
  then have "(2::real) ^ 1075 < exp 1 ^ 1075"
    by (intro power_strict_mono) simp_all
  also have "exp 1 ^ 1075 = exp (1075::real)"
    using exp_of_nat_mult[of 1075 "1::real"] by simp
  finally have "1 / exp (1075::real) < 1 / 2 ^ 1075"
    by (intro divide_strict_left_mono) simp_all
  moreover have "exp x \<le> exp (- 1075)" using assms by simp
  moreover have "exp (- 1075::real) = 1 / exp 1075" by (simp add: exp_minus inverse_eq_divide)
  moreover have "min_float / 2 = 1 / 2 ^ 1075" by (simp add: min_float_def)
  ultimately show ?thesis by linarith
qed

lemma np_exp_underflow: "x \<le> - 1075 \<Longrightarrow> np_exp x = 0"
  by (rule np_exp_zero) (rule exp_below_min_float)

lemma map2_same: "map2 g (map f1 xs) (map f2 xs) = map (\<lambda>x. g (f1 x) (f2 x)) xs"
  by (induction xs) simp_all

lemma cumsum_from_rows:
  "cumsum_from (map (\<lambda>j. \<Sum>k\<le>a. f k j) [0..<m]) (map (\<lambda>i. map (f i) [0..<m]) [Suc a..<n])
     = map (\<lambda>i. map (\<lambda>j. \<Sum>k\<le>i. f k j) [0..<m]) [Suc a..<n]"
proof (induction "n - Suc a" arbitrary: a)
  case 0
  then show ?case by simp
next
  case (Suc d)
  then have lt: "Suc a < n" and d: "d = n - Suc (Suc a)" by simp_all
  have step: "map2 (+) (map (\<lambda>j. \<Sum>k\<le>a. f k j) [0..<m]) (map (f (Suc a)) [0..<m])
      = map (\<lambda>j. \<Sum>k\<le>Suc a. f k j) [0..<m]"
    by (simp add: map2_same)
  show ?case
    unfolding upt_conv_Cons[OF lt] list.map cumsum_from.simps Let_def step Suc.hyps(1)[OF d]
    by simp
qed

lemma np_cumsum0_rows:
  "np_cumsum0 (map (\<lambda>i. map (f i) [0..<m]) [0..<n])
     = map (\<lambda>i. map (\<lambda>j. \<Sum>k\<le>i. f k j) [0..<m]) [0..<n]"
proof (cases n)
  case 0
  then show ?thesis by (simp add: np_cumsum0_def)
next
  case (Suc n')
  have "cumsum_from (map (\<lambda>j. \<Sum>k\<le>0. f k j) [0..<m]) (map (\<lambda>i. map (f i) [0..<m]) [Suc 0..<n])
     = map (\<lambda>i. map (\<lambda>j. \<Sum>k\<le>i. f k j) [0..<m]) [Suc 0..<n]"
    by (rule cumsum_from_rows)
  then show ?thesis
    by (simp add: np_cumsum0_def Suc upt_conv_Cons del: upt_Suc)
qed

lemma simulate_negative:
  "n_days < 0 \<or> n_sim < 0 \<Longrightarrow> simulate_gbm_daily z S0 mu sigma n_days n_sim = Inl ValueError"
  by (auto simp: simulate_gbm_daily_def np_random_normal_def)

lemma simulate_grid:
  assumes "0 \<le> n_days" and "0 \<le> n_sim"
  shows "simulate_gbm_daily z S0 mu sigma n_days n_sim
       = Inr (map (\<lambda>i. map (grid_price z S0 mu sigma (nat n_sim) i) [0..<nat n_sim]) [0..<nat n_days],
              np_arange n_days)"
proof -
  have dW: "np_random_normal z 0 (sqrt (1 / 252)) n_days n_sim
      = Inr (map (\<lambda>i. map (increment z (nat n_sim) i) [0..<nat n_sim]) [0..<nat n_days])"
    using assms by (simp add: np_random_normal_def increment_def)
  have W: "np_cumsum0 (map (\<lambda>i. map (increment z (nat n_sim) i) [0..<nat n_sim]) [0..<nat n_days])
      = map (\<lambda>i. map (brownian z (nat n_sim) i) [0..<nat n_sim]) [0..<nat n_days]"
    unfolding np_cumsum0_rows by (simp add: brownian_def)
  show ?thesis
    unfolding simulate_gbm_daily_def Let_def dW sum.case W np_arange_def
    by (simp add: map2_same grid_price_def exponent_def comp_def)
qed

section \<open>The forecast band\<close>

lemma simulate_rows:
  assumes "0 \<le> n_days" and "0 \<le> n_sim"
  shows "simulate_gbm_daily z S0 mu sigma n_days n_sim
       = Inr (map (grid_row z S0 mu sigma (nat n_sim)) [0..<nat n_days], np_arange n_days)"
  unfolding simulate_grid[OF assms] grid_row_def ..

lemma percentile_rows_interp:
  assumes "\<And>row. row \<in> set rows \<Longrightarrow> row \<noteq> []" and "0 \<le> q" and "q \<le> 100"
  shows "percentile_rows rows q
       = Inr (map (\<lambda>row. order_interp (sort row) ((real (length row) - 1) * (q / 100))) rows)"
  using assms(1)
proof (induction rows)
  case Nil
  then show ?case by simp
next
  case (Cons row rows)
  have "row \<noteq> []" using Cons.prems by simp
  then have "np_percentile row q = Inr (order_interp (sort row) ((real (length row) - 1) * (q / 100)))"
    using assms(2,3) by (rule np_percentile_interp)
  moreover have "percentile_rows rows q
       = Inr (map (\<lambda>row. order_interp (sort row) ((real (length row) - 1) * (q / 100))) rows)"
    using Cons.prems by (intro Cons.IH) simp
  ultimately show ?case by simp
qed

lemma np_percentile_axis1_interp:
  assumes "0 < cols" and "\<And>row. row \<in> set rows \<Longrightarrow> row \<noteq> []"
    and "0 \<le> q" and "q \<le> 100"
  shows "np_percentile_axis1 cols rows q
       = Inr (map (\<lambda>row. order_interp (sort row) ((real (length row) - 1) * (q / 100))) rows)"
  using assms(1,3,4) percentile_rows_interp[OF assms(2,3,4)]
  by (simp add: np_percentile_axis1_def)

lemma np_percentile_axis1_no_columns:
  "0 \<le> q \<Longrightarrow> q \<le> 100 \<Longrightarrow> np_percentile_axis1 0 rows q = Inl IndexError"
  by (simp add: np_percentile_axis1_def)

lemma grid_row_length: "length (grid_row z S0 mu sigma n i) = n"
  by (simp add: grid_row_def)

lemma grid_row_nonempty: "0 < n \<Longrightarrow> grid_row z S0 mu sigma n i \<noteq> []"
  by (simp add: grid_row_def)

lemma band_interp:
  assumes "0 \<le> n_days" and "1 \<le> n_sim"
  shows "predict_stock_daily_band z S0 mu sigma n_days n_sim
       = Inr \<lparr>median = map (\<lambda>i. Fin (order_interp (sort (grid_row z S0 mu sigma (nat n_sim) i))
                                       ((real (nat n_sim) - 1) / 2))) [0..<nat n_days],
              lower = map (\<lambda>i. order_interp (sort (grid_row z S0 mu sigma (nat n_sim) i))
                                       ((real (nat n_sim) - 1) * (2.5 / 100))) [0..<nat n_days],
              upper = map (\<lambda>i. order_interp (sort (grid_row z S0 mu sigma (nat n_sim) i))
                                       ((real (nat n_sim) - 1) * (97.5 / 100))) [0..<nat n_days]\<rparr>"
proof -
  let ?S = "map (grid_row z S0 mu sigma (nat n_sim)) [0..<nat n_days]"
  have n: "0 < nat n_sim" "0 \<le> n_sim" using assms(2) by simp_all
  have sim: "simulate_gbm_daily z S0 mu sigma n_days n_sim = Inr (?S, np_arange n_days)"
    by (rule simulate_rows[OF assms(1) n(2)])
  have ne: "\<And>row. row \<in> set ?S \<Longrightarrow> row \<noteq> []"
    using grid_row_nonempty[OF n(1)] by auto
  have med: "map np_median ?S
      = map (\<lambda>i. Fin (order_interp (sort (grid_row z S0 mu sigma (nat n_sim) i))
                                       ((real (nat n_sim) - 1) / 2))) [0..<nat n_days]"
    using n(1) by (simp add: np_median_interp grid_row_nonempty grid_row_length)
  have lo: "np_percentile_axis1 (nat n_sim) ?S 2.5
      = Inr (map (\<lambda>i. order_interp (sort (grid_row z S0 mu sigma (nat n_sim) i))
                                       ((real (nat n_sim) - 1) * (2.5 / 100))) [0..<nat n_days])"
  proof -
    have "np_percentile_axis1 (nat n_sim) ?S 2.5
        = Inr (map (\<lambda>row. order_interp (sort row) ((real (length row) - 1) * (2.5 / 100))) ?S)"
      by (rule np_percentile_axis1_interp[OF n(1) ne]) simp_all
    then show ?thesis by (simp add: comp_def grid_row_length)
  qed
  have up: "np_percentile_axis1 (nat n_sim) ?S 97.5
      = Inr (map (\<lambda>i. order_interp (sort (grid_row z S0 mu sigma (nat n_sim) i))
                                       ((real (nat n_sim) - 1) * (97.5 / 100))) [0..<nat n_days])"
  proof -
    have "np_percentile_axis1 (nat n_sim) ?S 97.5
        = Inr (map (\<lambda>row. order_interp (sort row) ((real (length row) - 1) * (97.5 / 100))) ?S)"
      by (rule np_percentile_axis1_interp[OF n(1) ne]) simp_all
    then show ?thesis by (simp add: comp_def grid_row_length)
  qed
  show ?thesis
    unfolding predict_stock_daily_band_def sim sum.case prod.case Let_def med lo up ..
qed

lemma band_no_columns:
  assumes "0 \<le> n_days" and "n_sim = 0"
  shows "predict_stock_daily_band z S0 mu sigma n_days n_sim = Inl IndexError"
proof -
  have "0 \<le> n_sim" using assms(2) by simp
  from simulate_rows[OF assms(1) this, of z S0 mu sigma] show ?thesis
    by (simp add: predict_stock_daily_band_def assms(2) np_percentile_axis1_def)
qed

lemma percentile_position:
  assumes "0 < n" and "0 \<le> q" and "q \<le> 100"
  shows "0 \<le> (real n - 1) * (q / 100)" and "(real n - 1) * (q / 100) \<le> real n - 1"
proof -
  show "0 \<le> (real n - 1) * (q / 100)" using assms by simp
  have "(real n - 1) * (q / 100) \<le> (real n - 1) * 1"
    by (rule mult_left_mono) (use assms in simp_all)
  then show "(real n - 1) * (q / 100) \<le> real n - 1" by simp
qed

lemma band_row_ordered:
  assumes "sorted s" and "s \<noteq> []"
  shows "order_interp s ((real (length s) - 1) * (2.5 / 100)) \<le> order_interp s ((real (length s) - 1) / 2)"
    and "order_interp s ((real (length s) - 1) / 2) \<le> order_interp s ((real (length s) - 1) * (97.5 / 100))"
proof -
  have n: "1 \<le> real (length s)" using assms(2) by (cases s) simp_all
  show "order_interp s ((real (length s) - 1) * (2.5 / 100)) \<le> order_interp s ((real (length s) - 1) / 2)"
    by (rule order_interp_mono[OF assms(1)]) (use n in simp_all)
  show "order_interp s ((real (length s) - 1) / 2) \<le> order_interp s ((real (length s) - 1) * (97.5 / 100))"
    by (rule order_interp_mono[OF assms(1)]) (use n in simp_all)
qed

text \<open>
  C6. On every forecast day the lower bound is at most the median and the median at most
  the upper bound; the median is the 50th percentile, the lower bound the 2.5th and the
  upper bound the 97.5th percentile of that day's row of simulated prices.
\<close>

theorem band_ordered:
  assumes "1 \<le> n_days" and "1 \<le> n_sim" and "i < nat n_days"
  shows "\<exists>b m. predict_stock_daily_band z S0 mu sigma n_days n_sim = Inr b
           \<and> length (median b) = nat n_days \<and> length (lower b) = nat n_days
           \<and> length (upper b) = nat n_days
           \<and> median b ! i = Fin m
           \<and> np_percentile (grid_row z S0 mu sigma (nat n_sim) i) 50 = Inr m
           \<and> np_percentile (grid_row z S0 mu sigma (nat n_sim) i) 2.5 = Inr (lower b ! i)
           \<and> np_percentile (grid_row z S0 mu sigma (nat n_sim) i) 97.5 = Inr (upper b ! i)
           \<and> lower b ! i \<le> m \<and> m \<le> upper b ! i"
proof -
  let ?row = "grid_row z S0 mu sigma (nat n_sim) i"
  let ?s = "sort ?row"
  let ?n = "nat n_sim"
  have d: "0 \<le> n_days" using assms(1) by simp
  have ne: "?row \<noteq> []" using assms(2) by (simp add: grid_row_nonempty)
  have len: "length ?s = ?n" "length ?row = ?n" by (simp_all add: grid_row_length)
  have sne: "?s \<noteq> []" using ne len by (metis length_0_conv)
  note ord = band_row_ordered[OF sorted_sort sne, unfolded len]
  have p50: "np_percentile ?row 50 = Inr (order_interp ?s ((real ?n - 1) / 2))"
    using np_percentile_interp[OF ne, of 50] by (simp add: len)
  have p2: "np_percentile ?row 2.5 = Inr (order_interp ?s ((real ?n - 1) * (2.5 / 100)))"
    using np_percentile_interp[OF ne, of "2.5"] by (simp add: len)
  have p97: "np_percentile ?row 97.5 = Inr (order_interp ?s ((real ?n - 1) * (97.5 / 100)))"
    using np_percentile_interp[OF ne, of "97.5"] by (simp add: len)
  show ?thesis
    unfolding band_interp[OF d assms(2)] p50 p2 p97
    using assms(3) ord by simp
qed

theorem band_ordered_witness:
  "\<exists>b m. predict_stock_daily_band real 100 (1 / 10) (1 / 5) 2 3 = Inr b
       \<and> median b ! 1 = Fin m \<and> lower b ! 1 \<le> m \<and> m \<le> upper b ! 1"
proof -
  have "(1::int) \<le> 2" "(1::int) \<le> 3" "1 < nat 2" by simp_all
  from band_ordered[OF this, of real 100 "1 / 10" "1 / 5"] show ?thesis by blast
qed

text \<open>
  C9. One day and one path: the simulation and the reduction return a band whose three
  series have exactly one element each, the single simulated price; no step fails.
\<close>

theorem single_path_single_day:
  "predict_stock_daily_band z S0 mu sigma 1 1
     = Inr \<lparr>median = [Fin (S0 * np_exp (sigma * (sqrt (1 / 252) * z 0)))],
            lower = [S0 * np_exp (sigma * (sqrt (1 / 252) * z 0))],
            upper = [S0 * np_exp (sigma * (sqrt (1 / 252) * z 0))]\<rparr>"
proof -
  have row: "grid_row z S0 mu sigma (Suc 0) 0 = [S0 * np_exp (sigma * (sqrt (1 / 252) * z 0))]"
    by (simp add: grid_row_def grid_price_def exponent_def brownian_def increment_def)
  have "(0::int) \<le> 1" "(1::int) \<le> 1" by simp_all
  from band_interp[OF this, of z S0 mu sigma] show ?thesis
    by (simp add: order_interp_def row)
qed

section \<open>Scaling the initial price\<close>

lemma sort_scale:
  assumes "0 < (k::real)"
  shows "sort (map ((*) k) xs) = map ((*) k) (sort xs)"
proof (rule properties_for_sort)
  show "mset (map ((*) k) (sort xs)) = mset (map ((*) k) xs)" by simp
  have "mono_on (set (sort xs)) ((*) k)"
    using assms by (simp add: mono_on_def)
  then show "sorted (map ((*) k) (sort xs))"
    by (rule sorted_map_mono[OF sorted_sort])
qed

lemma order_interp_scale:
  assumes "s \<noteq> []" and "0 \<le> v" and "v \<le> real (length s) - 1"
  shows "order_interp (map ((*) k) s) v = k * order_interp s v"
proof -
  have "\<lfloor>v\<rfloor> \<le> int (length s) - 1" using assms(3) by linarith
  then have i: "nat \<lfloor>v\<rfloor> < length s" using assms(1,2) by (cases s) simp_all
  then have j: "min (nat \<lfloor>v\<rfloor> + 1) (length s - 1) < length s" by simp
  show ?thesis
    unfolding order_interp_def length_map nth_map[OF i] nth_map[OF j]
    by (simp add: algebra_simps)
qed

lemma grid_row_scale: "grid_row z (k * S0) mu sigma n i = map ((*) k) (grid_row z S0 mu sigma n i)"
  by (simp add: grid_row_def grid_price_def mult.assoc)

lemma band_entry_scale:
  assumes "0 < k" and "0 < n" and "0 \<le> v" and "v \<le> real n - 1"
  shows "order_interp (sort (grid_row z (k * S0) mu sigma n i)) v
       = k * order_interp (sort (grid_row z S0 mu sigma n i)) v"
proof -
  let ?s = "sort (grid_row z S0 mu sigma n i)"
  have len: "length ?s = n" by (simp add: grid_row_length)
  then have ne: "?s \<noteq> []" using assms(2) by (metis length_0_conv less_numeral_extra(3))
  show ?thesis
    unfolding grid_row_scale sort_scale[OF assms(1)]
    by (rule order_interp_scale[OF ne assms(3)]) (simp add: grid_row_length assms(4))
qed

text \<open>
  C7. With the same random draws, mu and sigma, the band of the run started at \<open>k * S0\<close>
  for a positive \<open>k\<close> is the band of the run started at \<open>S0\<close> with every median, lower
  bound and upper bound multiplied by \<open>k\<close>.
\<close>

theorem scale_invariance:
  assumes "0 < k" and "1 \<le> n_days" and "1 \<le> n_sim"
  shows "\<exists>b. predict_stock_daily_band z S0 mu sigma n_days n_sim = Inr b
           \<and> length (median b) = nat n_days \<and> length (lower b) = nat n_days
           \<and> length (upper b) = nat n_days
           \<and> predict_stock_daily_band z (k * S0) mu sigma n_days n_sim
               = Inr \<lparr>median = map (np_multiply (Fin k)) (median b),
                      lower = map ((*) k) (lower b),
                      upper = map ((*) k) (upper b)\<rparr>"
proof -
  let ?n = "nat n_sim"
  have d: "0 \<le> n_days" using assms(2) by simp
  have n: "0 < ?n" and n1: "1 \<le> real ?n" using assms(3) by simp_all
  have a: "\<And>i. order_interp (sort (grid_row z (k * S0) mu sigma ?n i)) ((real ?n - 1) / 2)
       = k * order_interp (sort (grid_row z S0 mu sigma ?n i)) ((real ?n - 1) / 2)"
    by (rule band_entry_scale[OF assms(1) n]) (use n1 in simp_all)
  have b: "\<And>i. order_interp (sort (grid_row z (k * S0) mu sigma ?n i)) ((real ?n - 1) * (2.5 / 100))
       = k * order_interp (sort (grid_row z S0 mu sigma ?n i)) ((real ?n - 1) * (2.5 / 100))"
    by (rule band_entry_scale[OF assms(1) n]) (use n1 in simp_all)
  have c: "\<And>i. order_interp (sort (grid_row z (k * S0) mu sigma ?n i)) ((real ?n - 1) * (97.5 / 100))
       = k * order_interp (sort (grid_row z S0 mu sigma ?n i)) ((real ?n - 1) * (97.5 / 100))"
    by (rule band_entry_scale[OF assms(1) n]) (use n1 in simp_all)
  show ?thesis
    unfolding band_interp[OF d assms(3)] a b c
    by (simp add: comp_def)
qed

theorem scale_invariance_witness:
  "\<exists>b. predict_stock_daily_band real 100 (1 / 10) (1 / 5) 2 3 = Inr b
      \<and> predict_stock_daily_band real (7 * 100) (1 / 10) (1 / 5) 2 3
          = Inr \<lparr>median = map (np_multiply (Fin 7)) (median b),
                 lower = map ((*) 7) (lower b),
                 upper = map ((*) 7) (upper b)\<rparr>"
proof -
  have "(0::real) < 7" "(1::int) \<le> 2" "(1::int) \<le> 3" by simp_all
  from scale_invariance[OF this, of real 100 "1 / 10" "1 / 5"] show ?thesis by blast
qed

section \<open>Zero volatility and the drift of the first day\<close>

lemma grid_row_zero_sigma:
  "grid_row z S0 mu 0 n i = replicate n (S0 * np_exp (mu * real i / 252))"
proof -
  have "grid_price z S0 mu 0 n i = (\<lambda>j. S0 * np_exp (mu * real i / 252))"
    by (rule ext) (simp add: grid_price_def exponent_def)
  then show ?thesis by (simp add: grid_row_def map_replicate_const)
qed

lemma order_interp_replicate:
  assumes "0 < n" and "0 \<le> v" and "v \<le> real n - 1"
  shows "order_interp (replicate n c) v = c"
proof -
  have "\<lfloor>v\<rfloor> \<le> int n - 1" using assms(3) by linarith
  then have i: "nat \<lfloor>v\<rfloor> < n" using assms(1,2) by linarith
  then have j: "min (nat \<lfloor>v\<rfloor> + 1) (n - 1) < n" by simp
  show ?thesis
    unfolding order_interp_def length_replicate nth_replicate[OF i] nth_replicate[OF j]
    by simp
qed

lemma band_zero_sigma:
  assumes "0 \<le> n_days" and "1 \<le> n_sim"
  shows "predict_stock_daily_band z S0 mu 0 n_days n_sim
       = Inr \<lparr>median = map (\<lambda>i. Fin (S0 * np_exp (mu * real i / 252))) [0..<nat n_days],
              lower = map (\<lambda>i. S0 * np_exp (mu * real i / 252)) [0..<nat n_days],
              upper = map (\<lambda>i. S0 * np_exp (mu * real i / 252)) [0..<nat n_days]\<rparr>"
proof -
  let ?n = "nat n_sim"
  have n: "0 < ?n" and n1: "1 \<le> real ?n" using assms(2) by simp_all
  have s: "\<And>i. sort (grid_row z S0 mu 0 ?n i) = replicate ?n (S0 * np_exp (mu * real i / 252))"
    by (simp add: grid_row_zero_sigma sorted_sort_id)
  have a: "\<And>c. order_interp (replicate ?n c) ((real ?n - 1) / 2) = c"
    by (rule order_interp_replicate[OF n]) (use n1 in simp_all)
  have b: "\<And>c. order_interp (replicate ?n c) ((real ?n - 1) * (2.5 / 100)) = c"
    by (rule order_interp_replicate[OF n]) (use n1 in simp_all)
  have c: "\<And>c. order_interp (replicate ?n c) ((real ?n - 1) * (97.5 / 100)) = c"
    by (rule order_interp_replicate[OF n]) (use n1 in simp_all)
  show ?thesis
    unfolding band_interp[OF assms] s a b c ..
qed

text \<open>
  C3. With sigma = 0 the three series coincide, but the value at index \<open>i\<close> is
  \<open>S0 * exp (mu * i / 252)\<close>, not \<open>S0 * exp (mu * (i + 1) / 252)\<close>: for S0 = 100, mu = 0.08
  and two days the code yields \<open>100\<close> and \<open>100 * exp (0.08 * 1 / 252)\<close>, where the scenario
  expects \<open>100 * exp (0.08 * 1 / 252)\<close> and \<open>100 * exp (0.08 * 2 / 252)\<close>.
\<close>

theorem zero_volatility_first_day:
  "predict_stock_daily_band z 100 (8 / 100) 0 2 1000
     = Inr \<lparr>median = [Fin 100, Fin (100 * exp (8 / 100 * 1 / 252))],
            lower = [100, 100 * exp (8 / 100 * 1 / 252)],
            upper = [100, 100 * exp (8 / 100 * 1 / 252)]\<rparr>
   \<and> (100::real) \<noteq> 100 * exp (8 / 100 * 1 / 252)"
proof -
  have "(0::int) \<le> 2" "(1::int) \<le> 1000" by simp_all
  from band_zero_sigma[OF this, of z 100 "8 / 100"]
  have "predict_stock_daily_band z 100 (8 / 100) 0 2 1000
     = Inr \<lparr>median = [Fin 100, Fin (100 * exp (8 / 100 * 1 / 252))],
            lower = [100, 100 * exp (8 / 100 * 1 / 252)],
            upper = [100, 100 * exp (8 / 100 * 1 / 252)]\<rparr>"
    by (simp add: numeral_2_eq_2 np_exp_of_nonneg)
  then show ?thesis by simp
qed

text \<open>
  C1. The price of forecast day \<open>t\<close> (row \<open>t - 1\<close> of the grid) carries the Brownian sum of
  the first \<open>t\<close> increments but the drift of \<open>t - 1\<close> days, because \<open>np.arange(n_days)\<close>
  starts at 0: on the first day, with sigma = 0, the code stores \<open>S0\<close> itself and not
  \<open>S0 * exp (mu * 1 / 252)\<close>.
\<close>

theorem drift_of_first_day:
  "simulate_gbm_daily z 100 (8 / 100) 0 2 1
     = Inr ([[100], [100 * exp (8 / 100 * 1 / 252)]], [0, 1])
   \<and> (100::real) \<noteq> 100 * exp ((8 / 100 - 0.5 * 0\<^sup>2) * 1 / 252 + 0 * brownian z 1 0 0)"
proof -
  have "(0::int) \<le> 2" "(0::int) \<le> 1" by simp_all
  from simulate_grid[OF this, of z 100 "8 / 100" 0]
  have "simulate_gbm_daily z 100 (8 / 100) 0 2 1
     = Inr ([[100], [100 * exp (8 / 100 * 1 / 252)]], [0, 1])"
    by (simp add: numeral_2_eq_2 grid_price_def exponent_def np_arange_def np_exp_of_nonneg)
  then show ?thesis by simp
qed

section \<open>Sign of the prices\<close>

lemma grid_price_nonneg: "0 < S0 \<Longrightarrow> 0 \<le> grid_price z S0 mu sigma n i j"
  by (simp add: grid_price_def np_exp_nonneg)

lemma grid_price_zero:
  "exp (exponent z mu sigma n i j) < min_float / 2 \<Longrightarrow> grid_price z S0 mu sigma n i j = 0"
  by (simp add: grid_price_def np_exp_zero)

lemma grid_price_pos:
  "0 < S0 \<Longrightarrow> min_float / 2 \<le> exp (exponent z mu sigma n i j)
     \<Longrightarrow> 0 < grid_price z S0 mu sigma n i j"
  by (simp add: grid_price_def np_exp_exact)

lemma order_interp_nonneg:
  assumes "\<And>x. x \<in> set a \<Longrightarrow> 0 \<le> x" and "a \<noteq> []" and "0 \<le> v" and "v \<le> real (length a) - 1"
  shows "0 \<le> order_interp (sort a) v"
proof -
  let ?s = "sort a"
  have "\<lfloor>v\<rfloor> \<le> int (length a) - 1" using assms(4) by linarith
  then have "nat \<lfloor>v\<rfloor> < length ?s" using assms(2,3) by (cases a) simp_all
  then have "?s ! nat \<lfloor>v\<rfloor> \<in> set ?s" by (rule nth_mem)
  then have "0 \<le> ?s ! nat \<lfloor>v\<rfloor>" using assms(1) by simp
  moreover have "?s ! nat \<lfloor>v\<rfloor> \<le> order_interp ?s v"
    by (rule order_interp_bounds(1)) (use assms in simp_all)
  ultimately show ?thesis by linarith
qed

lemma order_interp_pos:
  assumes "\<And>x. x \<in> set a \<Longrightarrow> 0 < x" and "a \<noteq> []" and "0 \<le> v" and "v \<le> real (length a) - 1"
  shows "0 < order_interp (sort a) v"
proof -
  let ?s = "sort a"
  have "\<lfloor>v\<rfloor> \<le> int (length a) - 1" using assms(4) by linarith
  then have "nat \<lfloor>v\<rfloor> < length ?s" using assms(2,3) by (cases a) simp_all
  then have "?s ! nat \<lfloor>v\<rfloor> \<in> set ?s" by (rule nth_mem)
  then have "0 < ?s ! nat \<lfloor>v\<rfloor>" using assms(1) by simp
  moreover have "?s ! nat \<lfloor>v\<rfloor> \<le> order_interp ?s v"
    by (rule order_interp_bounds(1)) (use assms in simp_all)
  ultimately show ?thesis by linarith
qed

lemma order_interp_zeros:
  assumes "0 < n" and "0 \<le> v" and "v \<le> real n - 1"
  shows "order_interp (sort (replicate n 0)) v = 0"
proof -
  have "\<lfloor>v\<rfloor> \<le> int n - 1" using assms(3) by linarith
  then have i: "nat \<lfloor>v\<rfloor> < n" using assms(1,2) by linarith
  then have j: "min (nat \<lfloor>v\<rfloor> + 1) (n - 1) < n" by simp
  show ?thesis
    unfolding sorted_sort_id[OF sorted_replicate] order_interp_def length_replicate
      nth_replicate[OF i] nth_replicate[OF j]
    by simp
qed

lemma brownian_nonneg: "(\<And>k. 0 \<le> z k) \<Longrightarrow> 0 \<le> brownian z n i j"
  unfolding brownian_def increment_def by (intro sum_nonneg) simp

text \<open>
  C10, as the code has it. For a positive initial price every entry of the grid is
  \<open>S0 * np.exp(..)\<close> and is never negative. An entry is 0.0 when \<open>np.exp\<close> underflows,
  that is when the exponential of its argument is below half of the smallest positive
  float; it is strictly positive when \<open>np.exp\<close> does not underflow and the product with
  \<open>S0\<close> is at least the smallest positive float. On a day whose prices all stay within
  the largest finite float, the median, the lower bound and the upper bound are never
  negative; they are strictly positive when every price of the day is strictly positive
  by the condition above, and 0.0 when \<open>np.exp\<close> underflows on every path of the day.
\<close>

theorem prices_nonnegative:
  assumes "0 < S0" and "1 \<le> n_days" and "1 \<le> n_sim" and "i < nat n_days" and "j < nat n_sim"
  shows "\<exists>S t b m. simulate_gbm_daily z S0 mu sigma n_days n_sim = Inr (S, t)
           \<and> length S = nat n_days \<and> length (S ! i) = nat n_sim
           \<and> S ! i ! j = S0 * np_exp (exponent z mu sigma (nat n_sim) i j)
           \<and> 0 \<le> S ! i ! j
           \<and> (exp (exponent z mu sigma (nat n_sim) i j) < min_float / 2 \<longrightarrow> S ! i ! j = 0)
           \<and> (min_float / 2 \<le> exp (exponent z mu sigma (nat n_sim) i j)
                \<and> min_float \<le> S0 * exp (exponent z mu sigma (nat n_sim) i j)
              \<longrightarrow> 0 < S ! i ! j)
           \<and> predict_stock_daily_band z S0 mu sigma n_days n_sim = Inr b
           \<and> median b ! i = Fin m
           \<and> ((\<forall>c<nat n_sim. S0 * exp (exponent z mu sigma (nat n_sim) i c) \<le> max_float)
              \<longrightarrow> 0 \<le> m \<and> 0 \<le> lower b ! i \<and> 0 \<le> upper b ! i)
           \<and> ((\<forall>c<nat n_sim. min_float / 2 \<le> exp (exponent z mu sigma (nat n_sim) i c)
                      \<and> min_float \<le> S0 * exp (exponent z mu sigma (nat n_sim) i c)
                      \<and> S0 * exp (exponent z mu sigma (nat n_sim) i c) \<le> max_float)
              \<longrightarrow> 0 < m \<and> 0 < lower b ! i \<and> 0 < upper b ! i)
           \<and> ((\<forall>c<nat n_sim. exp (exponent z mu sigma (nat n_sim) i c) < min_float / 2)
              \<longrightarrow> m = 0 \<and> lower b ! i = 0 \<and> upper b ! i = 0)"
proof -
  let ?n = "nat n_sim"
  let ?row = "grid_row z S0 mu sigma ?n i"
  let ?med = "order_interp (sort ?row) ((real ?n - 1) / 2)"
  let ?lo = "order_interp (sort ?row) ((real ?n - 1) * (2.5 / 100))"
  let ?up = "order_interp (sort ?row) ((real ?n - 1) * (97.5 / 100))"
  have d: "0 \<le> n_days" and s: "0 \<le> n_sim" using assms(2,3) by simp_all
  have n: "0 < ?n" and n1: "1 \<le> real ?n" using assms(3) by simp_all
  have ne: "?row \<noteq> []" using assms(3) by (simp add: grid_row_nonempty)
  have entry: "?row ! j = grid_price z S0 mu sigma ?n i j"
    using assms(5) by (simp add: grid_row_def)
  have eq: "?row ! j = S0 * np_exp (exponent z mu sigma ?n i j)"
    unfolding entry by (simp add: grid_price_def)
  have e0: "0 \<le> ?row ! j"
    unfolding entry by (rule grid_price_nonneg[OF assms(1)])
  have e1: "exp (exponent z mu sigma ?n i j) < min_float / 2 \<longrightarrow> ?row ! j = 0"
    unfolding entry by (simp add: grid_price_zero)
  have e2: "min_float / 2 \<le> exp (exponent z mu sigma ?n i j)
              \<and> min_float \<le> S0 * exp (exponent z mu sigma ?n i j) \<longrightarrow> 0 < ?row ! j"
    unfolding entry using grid_price_pos[OF assms(1)] by blast
  have nonneg: "\<And>x. x \<in> set ?row \<Longrightarrow> 0 \<le> x"
    using assms(1) by (auto simp: grid_row_def grid_price_nonneg)
  have b0: "0 \<le> ?med" "0 \<le> ?lo" "0 \<le> ?up"
    by (rule order_interp_nonneg[OF nonneg ne]; use n1 in \<open>simp_all add: grid_row_length\<close>)+
  have b1: "0 < ?med \<and> 0 < ?lo \<and> 0 < ?up"
    if h: "\<forall>c<?n. min_float / 2 \<le> exp (exponent z mu sigma ?n i c)
                      \<and> min_float \<le> S0 * exp (exponent z mu sigma ?n i c)
                      \<and> S0 * exp (exponent z mu sigma ?n i c) \<le> max_float"
  proof -
    have pos: "\<And>x. x \<in> set ?row \<Longrightarrow> 0 < x"
      using assms(1) h by (auto simp: grid_row_def grid_price_pos)
    have "0 < ?med" "0 < ?lo" "0 < ?up"
      by (rule order_interp_pos[OF pos ne]; use n1 in \<open>simp_all add: grid_row_length\<close>)+
    then show ?thesis by simp
  qed
  have b2: "?med = 0 \<and> ?lo = 0 \<and> ?up = 0"
    if h: "\<forall>c<?n. exp (exponent z mu sigma ?n i c) < min_float / 2"
  proof -
    have "map (grid_price z S0 mu sigma ?n i) [0..<?n] = map (\<lambda>c. 0) [0..<?n]"
      by (rule map_cong) (use h in \<open>simp_all add: grid_price_zero\<close>)
    then have row: "?row = replicate ?n 0"
      by (simp add: grid_row_def map_replicate_const)
    have "order_interp (sort (replicate ?n 0)) ((real ?n - 1) / 2) = 0"
      "order_interp (sort (replicate ?n 0)) ((real ?n - 1) * (2.5 / 100)) = 0"
      "order_interp (sort (replicate ?n 0)) ((real ?n - 1) * (97.5 / 100)) = 0"
      by (rule order_interp_zeros[OF n]; use n1 in simp_all)+
    then show ?thesis unfolding row by simp
  qed
  let ?S = "map (grid_row z S0 mu sigma ?n) [0..<nat n_days]"
  let ?b = "\<lparr>median = map (\<lambda>i. Fin (order_interp (sort (grid_row z S0 mu sigma ?n i))
                                       ((real ?n - 1) / 2))) [0..<nat n_days],
              lower = map (\<lambda>i. order_interp (sort (grid_row z S0 mu sigma ?n i))
                                       ((real ?n - 1) * (2.5 / 100))) [0..<nat n_days],
              upper = map (\<lambda>i. order_interp (sort (grid_row z S0 mu sigma ?n i))
                                       ((real ?n - 1) * (97.5 / 100))) [0..<nat n_days]\<rparr>"
  have sim: "simulate_gbm_daily z S0 mu sigma n_days n_sim = Inr (?S, np_arange n_days)"
    by (rule simulate_rows[OF d s])
  have band: "predict_stock_daily_band z S0 mu sigma n_days n_sim = Inr ?b"
    by (rule band_interp[OF d assms(3)])
  have len: "length ?S = nat n_days" by simp
  have row: "?S ! i = ?row" using assms(4) by simp
  have rl: "length (?S ! i) = ?n" unfolding row by (rule grid_row_length)
  have m: "median ?b ! i = Fin ?med" and l: "lower ?b ! i = ?lo" and u: "upper ?b ! i = ?up"
    using assms(4) by simp_all
  have c1: "?S ! i ! j = S0 * np_exp (exponent z mu sigma ?n i j)"
    unfolding row by (rule eq)
  have c2: "0 \<le> ?S ! i ! j" unfolding row by (rule e0)
  have c3: "exp (exponent z mu sigma ?n i j) < min_float / 2 \<longrightarrow> ?S ! i ! j = 0"
    unfolding row by (rule e1)
  have c4: "min_float / 2 \<le> exp (exponent z mu sigma ?n i j)
              \<and> min_float \<le> S0 * exp (exponent z mu sigma ?n i j) \<longrightarrow> 0 < ?S ! i ! j"
    unfolding row by (rule e2)
  have c5: "(\<forall>c<?n. S0 * exp (exponent z mu sigma ?n i c) \<le> max_float)
              \<longrightarrow> 0 \<le> ?med \<and> 0 \<le> lower ?b ! i \<and> 0 \<le> upper ?b ! i"
    unfolding l u using b0 by blast
  have c6: "(\<forall>c<?n. min_float / 2 \<le> exp (exponent z mu sigma ?n i c)
                      \<and> min_float \<le> S0 * exp (exponent z mu sigma ?n i c)
                      \<and> S0 * exp (exponent z mu sigma ?n i c) \<le> max_float)
              \<longrightarrow> 0 < ?med \<and> 0 < lower ?b ! i \<and> 0 < upper ?b ! i"
    unfolding l u using b1 by blast
  have c7: "(\<forall>c<?n. exp (exponent z mu sigma ?n i c) < min_float / 2)
              \<longrightarrow> ?med = 0 \<and> lower ?b ! i = 0 \<and> upper ?b ! i = 0"
    unfolding l u using b2 by blast
  show ?thesis
    apply (rule exI[of _ ?S])
    apply (rule exI[of _ "np_arange n_days"])
    apply (rule exI[of _ ?b])
    apply (rule exI[of _ ?med])
    apply (intro conjI)
               apply (rule sim)
              apply (rule len)
             apply (rule rl)
            apply (rule c1)
           apply (rule c2)
          apply (rule c3)
         apply (rule c4)
        apply (rule band)
       apply (rule m)
      apply (rule c5)
     apply (rule c6)
    apply (rule c7)
    done
qed

theorem prices_nonnegative_witness:
  "(\<exists>S t b m. simulate_gbm_daily (\<lambda>k. 1) 100 (1 / 10) (1 / 5) 2 3 = Inr (S, t) \<and> 0 < S ! 1 ! 2
       \<and> predict_stock_daily_band (\<lambda>k. 1) 100 (1 / 10) (1 / 5) 2 3 = Inr b
       \<and> median b ! 1 = Fin m \<and> 0 < m \<and> 0 < lower b ! 1 \<and> 0 < upper b ! 1)
   \<and> (\<exists>S t b. simulate_gbm_daily (\<lambda>k. 0) 100 (- 1000000) 0 2 1 = Inr (S, t) \<and> S ! 1 ! 0 = 0
       \<and> predict_stock_daily_band (\<lambda>k. 0) 100 (- 1000000) 0 2 1 = Inr b
       \<and> median b ! 1 = Fin 0 \<and> lower b ! 1 = 0 \<and> upper b ! 1 = 0)"
proof -
  let ?e = "exponent (\<lambda>k. 1) (1 / 10) (1 / 5) (nat 3) 1"
  have h: "(0::real) < 100" "(1::int) \<le> 2" "(1::int) \<le> 3" "1 < nat 2" "2 < nat 3" by simp_all
  have bm: "brownian (\<lambda>k. 1) (nat 3) 1 c = 2 * sqrt (1 / 252)" for c
    by (simp add: brownian_def increment_def)
  have s0: "0 \<le> sqrt (1 / 252 :: real)" and s1: "sqrt (1 / 252 :: real) \<le> 1" by simp_all
  have dr: "(1 / 10 - 0.5 * (1 / 5)\<^sup>2) * real 1 / 252 = (1 / 3150 :: real)"
    by (simp add: power2_eq_square)
  have lo: "0 \<le> ?e c" and hi: "?e c \<le> 1" for c
  proof -
    have "?e c = 1 / 3150 + 1 / 5 * (2 * sqrt (1 / 252))"
      unfolding exponent_def bm dr ..
    with s0 s1 show "0 \<le> ?e c" and "?e c \<le> 1" by linarith+
  qed
  have ok: "min_float / 2 \<le> exp (?e c) \<and> min_float \<le> 100 * exp (?e c)
      \<and> 100 * exp (?e c) \<le> max_float" for c
  proof -
    have "1 \<le> exp (?e c)" using lo[of c] by simp
    moreover have "exp (?e c) \<le> exp 1" using hi[of c] by simp
    moreover have "exp (1::real) \<le> 3" by (rule exp_le)
    moreover have "300 \<le> max_float" by (simp add: max_float_def)
    ultimately show ?thesis using min_float_pos min_float_le_one by linarith
  qed
  from prices_nonnegative[OF h, of "\<lambda>k. 1" "1 / 10" "1 / 5"] ok
  have a: "\<exists>S t b m. simulate_gbm_daily (\<lambda>k. 1) 100 (1 / 10) (1 / 5) 2 3 = Inr (S, t) \<and> 0 < S ! 1 ! 2
       \<and> predict_stock_daily_band (\<lambda>k. 1) 100 (1 / 10) (1 / 5) 2 3 = Inr b
       \<and> median b ! 1 = Fin m \<and> 0 < m \<and> 0 < lower b ! 1 \<and> 0 < upper b ! 1"
    by blast
  have g: "(0::real) < 100" "(1::int) \<le> 2" "(1::int) \<le> 1" "1 < nat 2" "0 < nat 1" by simp_all
  have "exponent (\<lambda>k. 0) (- 1000000) 0 (nat 1) 1 c \<le> - 1075" for c
    by (simp add: exponent_def)
  then have under: "exp (exponent (\<lambda>k. 0) (- 1000000) 0 (nat 1) 1 c) < min_float / 2" for c
    by (rule exp_below_min_float)
  from prices_nonnegative[OF g, of "\<lambda>k. 0" "- 1000000" 0] under
  have b: "\<exists>S t b. simulate_gbm_daily (\<lambda>k. 0) 100 (- 1000000) 0 2 1 = Inr (S, t) \<and> S ! 1 ! 0 = 0
       \<and> predict_stock_daily_band (\<lambda>k. 0) 100 (- 1000000) 0 2 1 = Inr b
       \<and> median b ! 1 = Fin 0 \<and> lower b ! 1 = 0 \<and> upper b ! 1 = 0"
    by blast
  from a b show ?thesis by blast
qed

text \<open>
  Strict positivity fails where \<open>np.exp\<close> underflows: with \<open>S0 = 100\<close>, \<open>mu = -1000000\<close>,
  \<open>sigma = 0\<close>, two days and one path, the second row of the grid and the band values of
  the second day are 0.0.
\<close>

theorem price_underflow_counterexample:
  "simulate_gbm_daily (\<lambda>k. 0) 100 (- 1000000) 0 2 1 = Inr ([[100], [0]], [0, 1])
   \<and> predict_stock_daily_band (\<lambda>k. 0) 100 (- 1000000) 0 2 1
       = Inr \<lparr>median = [Fin 100, Fin 0], lower = [100, 0], upper = [100, 0]\<rparr>"
proof -
  have u: "np_exp (- (250000 / 63)) = 0"
    by (rule np_exp_underflow) simp
  have h: "(0::int) \<le> 2" "(0::int) \<le> 1" "(1::int) \<le> 1" by simp_all
  have "simulate_gbm_daily (\<lambda>k. 0) 100 (- 1000000) 0 2 1 = Inr ([[100], [0]], [0, 1])"
    using simulate_grid[OF h(1) h(2), of "\<lambda>k. 0" 100 "- 1000000" 0]
    by (simp add: numeral_2_eq_2 grid_price_def exponent_def np_arange_def np_exp_of_nonneg u)
  moreover have "predict_stock_daily_band (\<lambda>k. 0) 100 (- 1000000) 0 2 1
       = Inr \<lparr>median = [Fin 100, Fin 0], lower = [100, 0], upper = [100, 0]\<rparr>"
    using band_zero_sigma[OF h(1) h(3), of "\<lambda>k. 0" 100 "- 1000000"]
    by (simp add: numeral_2_eq_2 np_exp_of_nonneg u)
  ultimately show ?thesis by simp
qed

section \<open>Inputs the simulator accepts\<close>

text \<open>
  C5, as the code has it. The simulator validates nothing and never raises an error of
  its own. No forecast band is returned for fewer than one path or a negative number of
  days, but the failure is numpy's: a negative number of days or of paths fails with the
  ValueError of the random draw, and zero paths fail with the IndexError of
  \<open>np.percentile\<close>, after \<open>simulate_gbm_daily\<close> has returned a grid without columns. Zero
  days with at least one path are accepted and give an empty band. Any \<open>S0\<close> and \<open>sigma\<close>
  are accepted, also \<open>S0 \<le> 0\<close> and \<open>sigma < 0\<close>: the grid is returned when both counts are
  at least 0, the band when moreover there is at least one path.
\<close>

theorem simulator_no_validation:
  "(n_days < 0 \<or> n_sim < 0
      \<longrightarrow> simulate_gbm_daily z S0 mu sigma n_days n_sim = Inl ValueError
        \<and> predict_stock_daily_band z S0 mu sigma n_days n_sim = Inl ValueError)
   \<and> (0 \<le> n_days \<and> 0 \<le> n_sim
      \<longrightarrow> simulate_gbm_daily z S0 mu sigma n_days n_sim
          = Inr (map (grid_row z S0 mu sigma (nat n_sim)) [0..<nat n_days], np_arange n_days))
   \<and> (0 \<le> n_days \<and> n_sim = 0
      \<longrightarrow> predict_stock_daily_band z S0 mu sigma n_days n_sim = Inl IndexError)
   \<and> (0 \<le> n_days \<and> 1 \<le> n_sim
      \<longrightarrow> (\<exists>b. predict_stock_daily_band z S0 mu sigma n_days n_sim = Inr b
             \<and> length (median b) = nat n_days \<and> length (lower b) = nat n_days
             \<and> length (upper b) = nat n_days))
   \<and> (n_days < 0 \<or> n_sim < 1 \<longrightarrow> isl (predict_stock_daily_band z S0 mu sigma n_days n_sim))"
proof (intro conjI impI)
  assume "n_days < 0 \<or> n_sim < 0"
  then show "simulate_gbm_daily z S0 mu sigma n_days n_sim = Inl ValueError"
    by (rule simulate_negative)
  then show "predict_stock_daily_band z S0 mu sigma n_days n_sim = Inl ValueError"
    by (simp add: predict_stock_daily_band_def)
next
  assume "0 \<le> n_days \<and> 0 \<le> n_sim"
  then show "simulate_gbm_daily z S0 mu sigma n_days n_sim
          = Inr (map (grid_row z S0 mu sigma (nat n_sim)) [0..<nat n_days], np_arange n_days)"
    by (simp add: simulate_rows)
next
  assume "0 \<le> n_days \<and> n_sim = 0"
  then show "predict_stock_daily_band z S0 mu sigma n_days n_sim = Inl IndexError"
    by (simp add: band_no_columns)
next
  assume "0 \<le> n_days \<and> 1 \<le> n_sim"
  then show "\<exists>b. predict_stock_daily_band z S0 mu sigma n_days n_sim = Inr b
             \<and> length (median b) = nat n_days \<and> length (lower b) = nat n_days
             \<and> length (upper b) = nat n_days"
    by (simp add: band_interp)
next
  assume a: "n_days < 0 \<or> n_sim < 1"
  show "isl (predict_stock_daily_band z S0 mu sigma n_days n_sim)"
  proof (cases "n_days < 0 \<or> n_sim < 0")
    case True
    then have "simulate_gbm_daily z S0 mu sigma n_days n_sim = Inl ValueError"
      by (rule simulate_negative)
    then show ?thesis by (simp add: predict_stock_daily_band_def)
  next
    case False
    with a have "0 \<le> n_days" "n_sim = 0" by simp_all
    then show ?thesis by (simp add: band_no_columns)
  qed
qed

theorem simulator_no_validation_witness:
  "simulate_gbm_daily real 100 0 0 (- 1) 5 = Inl ValueError
   \<and> predict_stock_daily_band real 100 0 0 5 (- 1) = Inl ValueError
   \<and> simulate_gbm_daily real (- 1) 0 (- 1) 2 3
       = Inr (map (grid_row real (- 1) 0 (- 1) (nat 3)) [0..<nat 2], np_arange 2)
   \<and> predict_stock_daily_band real 100 0 0 5 0 = Inl IndexError
   \<and> predict_stock_daily_band real 100 0 0 0 0 = Inl IndexError
   \<and> (\<exists>b. predict_stock_daily_band real (- 1) 0 (- 1) 0 1 = Inr b \<and> length (median b) = nat 0)
   \<and> isl (predict_stock_daily_band real 100 0 0 (- 1) 5)"
proof -
  have a: "simulate_gbm_daily real 100 0 0 (- 1) 5 = Inl ValueError"
    using simulator_no_validation[of "- 1" 5 real 100 0 0] by simp
  have b: "predict_stock_daily_band real 100 0 0 5 (- 1) = Inl ValueError"
    using simulator_no_validation[of 5 "- 1" real 100 0 0] by simp
  have c: "simulate_gbm_daily real (- 1) 0 (- 1) 2 3
       = Inr (map (grid_row real (- 1) 0 (- 1) (nat 3)) [0..<nat 2], np_arange 2)"
    using simulator_no_validation[of 2 3 real "- 1" 0 "- 1"] by simp
  have d: "predict_stock_daily_band real 100 0 0 5 0 = Inl IndexError"
    using simulator_no_validation[of 5 0 real 100 0 0] by simp
  have e: "predict_stock_daily_band real 100 0 0 0 0 = Inl IndexError"
    using simulator_no_validation[of 0 0 real 100 0 0] by simp
  have f: "\<exists>b. predict_stock_daily_band real (- 1) 0 (- 1) 0 1 = Inr b \<and> length (median b) = nat 0"
    using simulator_no_validation[of 0 1 real "- 1" 0 "- 1"] by auto
  have g: "isl (predict_stock_daily_band real 100 0 0 (- 1) 5)"
    using simulator_no_validation[of "- 1" 5 real 100 0 0] by simp
  from a b c d e f g show ?thesis by blast
qed

text \<open>
  A negative initial price and a negative sigma are not rejected: the grid and the band
  are returned.
\<close>

theorem simulator_negative_price_counterexample:
  "simulate_gbm_daily (\<lambda>k. 0) (- 1) 0 (- 1) 1 1 = Inr ([[- 1]], [0])
   \<and> predict_stock_daily_band (\<lambda>k. 0) (- 1) 0 (- 1) 1 1
       = Inr \<lparr>median = [Fin (- 1)], lower = [- 1], upper = [- 1]\<rparr>"
proof -
  have row: "grid_row (\<lambda>k. 0) (- 1) 0 (- 1) (Suc 0) 0 = [- 1]"
    by (simp add: grid_row_def grid_price_def exponent_def brownian_def increment_def
        np_exp_of_nonneg)
  have h: "(0::int) \<le> 1" "(1::int) \<le> 1" by simp_all
  have "simulate_gbm_daily (\<lambda>k. 0) (- 1) 0 (- 1) 1 1 = Inr ([[- 1]], [0])"
    using simulate_rows[OF h(1) h(1), of "\<lambda>k. 0" "- 1" 0 "- 1"] by (simp add: row np_arange_def)
  moreover have "predict_stock_daily_band (\<lambda>k. 0) (- 1) 0 (- 1) 1 1
       = Inr \<lparr>median = [Fin (- 1)], lower = [- 1], upper = [- 1]\<rparr>"
    using band_interp[OF h, of "\<lambda>k. 0" "- 1" 0 "- 1"] by (simp add: order_interp_def row)
  ultimately show ?thesis by simp
qed

end
